theory Spec2Isabelle
  imports Main
begin

section \<open>The task table\<close>

text \<open>
  The worker talks to one table, \<^verbatim>\<open>backstage_backend_common__tasks\<close>, whose primary
  key is the column \<^verbatim>\<open>id\<close>. The table is a map from the key to the other columns.
  Timestamps and durations are integers (milliseconds).
\<close>

text \<open>
  Modelled from the spec: the row type \<^verbatim>\<open>DbTasksRow\<close> is declared in
  \<^verbatim>\<open>../database/tables\<close>, which is not among the sources. The columns are the ones
  the worker names: \<^verbatim>\<open>settings_json\<close>, \<^verbatim>\<open>next_run_start_at\<close> and the nullable
  \<^verbatim>\<open>current_run_ticket\<close>, which an insert that does not mention it leaves null.
\<close>

record DbTasksRow =
  settings_json :: string
  next_run_start_at :: int
  current_run_ticket :: "string option"

type_synonym tasks_table = "string \<rightharpoonup> DbTasksRow"

section \<open>Observable actions\<close>

datatype level = Debug | Info | Warn

text \<open>
  What the worker does to the outside: a query it sends to the store (named by the task
  id), a line it writes to the logger, and a sleep with the time it actually lasted.
\<close>

datatype event =
    Select string
  | Upsert string
  | Log level string
  | Sleep int

section \<open>The cancel token\<close>

text \<open>
  Modelled from the spec: \<^verbatim>\<open>CancelToken\<close> lives in \<^verbatim>\<open>./CancelToken\<close>, which is not
  among the sources. The spec gives it a flag \<^verbatim>\<open>isCancelled\<close>, an operation
  \<^verbatim>\<open>create\<close> that returns an un-cancelled token, an idempotent operation
  \<^verbatim>\<open>cancel\<close> that sets the flag for good, and a promise that is resolved exactly
  when the flag is set.
\<close>

record CancelToken =
  isCancelled :: bool

definition create :: CancelToken where
  "create = \<lparr>isCancelled = False\<rparr>"

definition cancel :: "CancelToken \<Rightarrow> CancelToken" where
  "cancel tok = tok\<lparr>isCancelled := True\<rparr>"

definition promise_resolved :: "CancelToken \<Rightarrow> bool" where
  "promise_resolved tok = isCancelled tok"

section \<open>State and collaborators\<close>

text \<open>
  Everything a worker reads or changes: the shared table, the clock (the store's
  \<^verbatim>\<open>now()\<close> and the timer of the process), the worker's cancel token, and the
  actions performed so far, oldest first.
\<close>

record state =
  rows :: tasks_table
  clock :: int
  cancelToken :: CancelToken
  trace :: "event list"

text \<open>
  The worker's own fields. The work function \<^verbatim>\<open>fn\<close> may do anything to the state
  and may fail with a message.
\<close>

record TaskWorker =
  taskId :: string
  fn :: "state \<Rightarrow> (string + unit) \<times> state"

text \<open>
  The libraries the worker calls, whose code is not part of the sources, are
  parameters. \<open>'v\<close> is the type of JavaScript values that settings are.
  \<^item> \<open>schema_parse\<close> is \<^verbatim>\<open>taskSettingsV1Schema.parse\<close>: the parsed settings, or the
    message of the error it throws;
  \<^item> \<open>JSON_stringify\<close> and \<open>JSON_parse\<close> are \<^verbatim>\<open>JSON.stringify\<close> and
    \<^verbatim>\<open>JSON.parse\<close>, the latter with the message of the error it throws;
  \<^item> \<open>initialDelayDuration\<close> reads the optional field of that name;
  \<^item> \<open>Duration_fromISO\<close> is \<^verbatim>\<open>Duration.fromISO\<close>, in milliseconds.
\<close>

record 'v externals =
  schema_parse :: "'v \<Rightarrow> string + 'v"
  JSON_stringify :: "'v \<Rightarrow> string"
  JSON_parse :: "string \<Rightarrow> string + 'v"
  initialDelayDuration :: "'v \<Rightarrow> string option"
  Duration_fromISO :: "string \<Rightarrow> int"

text \<open>\<^verbatim>\<open>Duration.fromObject({ seconds: 5 })\<close>, in milliseconds.\<close>

definition WORK_CHECK_FREQUENCY :: int where
  "WORK_CHECK_FREQUENCY = 5 * 1000"

text \<open>
  Modelled from the spec: \<^verbatim>\<open>nowPlus\<close> lives in \<^verbatim>\<open>./util\<close>, which is not among
  the sources. The spec says the stored value is now plus the duration, or now when
  there is no duration.
\<close>

definition nowPlus :: "int option \<Rightarrow> state \<Rightarrow> int" where
  "nowPlus duration w = (case duration of None \<Rightarrow> clock w | Some d \<Rightarrow> clock w + d)"

definition logger :: "level \<Rightarrow> string \<Rightarrow> state \<Rightarrow> state" where
  "logger lvl msg w = w\<lparr>trace := trace w @ [Log lvl msg]\<rparr>"

section \<open>Store operations\<close>

text \<open>
  \<^verbatim>\<open>insert(row).onConflict('id').merge(['settings_json'])\<close>: a new key gets the whole
  row; on an existing key only the column \<^verbatim>\<open>settings_json\<close> is replaced.
\<close>

definition insert_merge_settings :: "string \<Rightarrow> DbTasksRow \<Rightarrow> tasks_table \<Rightarrow> tasks_table" where
  "insert_merge_settings key row tbl =
     (case tbl key of
        None \<Rightarrow> tbl(key \<mapsto> row)
      | Some old \<Rightarrow> tbl(key \<mapsto> old\<lparr>settings_json := settings_json row\<rparr>))"

text \<open>
  \<^verbatim>\<open>where('id', '=', taskId).where('next_run_start_at', '<', now()).whereNull('current_run_ticket')\<close>:
  the rows of that key that are due and unclaimed.
\<close>

definition select_ready :: "string \<Rightarrow> state \<Rightarrow> DbTasksRow list" where
  "select_ready key w =
     (case rows w key of
        None \<Rightarrow> []
      | Some r \<Rightarrow>
          if next_run_start_at r < clock w \<and> current_run_ticket r = None then [r] else [])"

section \<open>TaskWorker\<close>

datatype start_error =
    SchemaError string
  | Error string

text \<open>
  \<^verbatim>\<open>persistTask\<close>. The second argument says whether the store raises on the upsert
  (with which message). The test \<^verbatim>\<open>settings.initialDelayDuration ? ... : undefined\<close>
  is JavaScript truthiness: an absent field and the empty string both give
  \<^verbatim>\<open>undefined\<close>.
\<close>

definition persistTask ::
  "'v externals \<Rightarrow> TaskWorker \<Rightarrow> string option \<Rightarrow> 'v \<Rightarrow> state \<Rightarrow> (start_error + unit) \<times> state" where
  "persistTask ext wk fault settings w =
     (case schema_parse ext settings of
        Inl e \<Rightarrow> (Inl (SchemaError e), w)
      | Inr _ \<Rightarrow>
          let initialDelay =
                (case initialDelayDuration ext settings of
                   None \<Rightarrow> None
                 | Some d \<Rightarrow> if d \<noteq> [] then Some (Duration_fromISO ext d) else None);
              w1 = w\<lparr>trace := trace w @ [Upsert (taskId wk)]\<rparr>
          in (case fault of
                Some e \<Rightarrow> (Inl (Error (''Failed to persist task, '' @ e)), w1)
              | None \<Rightarrow>
                  (Inr (),
                   w1\<lparr>rows :=
                        insert_merge_settings (taskId wk)
                          \<lparr>settings_json = JSON_stringify ext settings,
                           next_run_start_at = nowPlus initialDelay w1,
                           current_run_ticket = None\<rparr>
                          (rows w1)\<rparr>)))"

datatype 'v find_result = FindNotReadyYet | FindAbort | FindReady 'v

text \<open>The two log lines of \<^verbatim>\<open>findReadyTask\<close>, each ending in the error caught.\<close>

definition fetch_failed_message :: "string \<Rightarrow> string" where
  "fetch_failed_message e =
     ''Task worker failed to fetch task information; will try again later, '' @ e"

definition abort_message :: "string \<Rightarrow> string" where
  "abort_message e =
     ''No longer able to parse task settings; aborting and assuming that a newer version of the task has been issued and being handled by other workers, '' @ e"

text \<open>
  \<^verbatim>\<open>findReadyTask\<close>. The second argument says whether the store raises on the read
  (with which message). \<^verbatim>\<open>JSON.parse\<close> and the schema are called inside one
  \<^verbatim>\<open>try\<close>, so either failure takes the same branch.
\<close>

definition findReadyTask ::
  "'v externals \<Rightarrow> TaskWorker \<Rightarrow> string option \<Rightarrow> state \<Rightarrow> 'v find_result \<times> state" where
  "findReadyTask ext wk fault w =
     (let w1 = w\<lparr>trace := trace w @ [Select (taskId wk)]\<rparr> in
      case fault of
        Some e \<Rightarrow> (FindNotReadyYet, logger Warn (fetch_failed_message e) w1)
      | None \<Rightarrow>
          (case select_ready (taskId wk) w1 of
             [] \<Rightarrow> (FindNotReadyYet, w1)
           | row # _ \<Rightarrow>
               (case JSON_parse ext (settings_json row) of
                  Inl e \<Rightarrow> (FindAbort, logger Info (abort_message e) w1)
                | Inr j \<Rightarrow>
                    (case schema_parse ext j of
                       Inl e \<Rightarrow> (FindAbort, logger Info (abort_message e) w1)
                     | Inr settings \<Rightarrow> (FindReady settings, w1)))))"

datatype run_result = NotReadyYet | Abort | Failed | Completed

definition runOnce ::
  "'v externals \<Rightarrow> TaskWorker \<Rightarrow> string option \<Rightarrow> state \<Rightarrow> run_result \<times> state" where
  "runOnce ext wk fault w =
     (case findReadyTask ext wk fault w of
        (FindNotReadyYet, w1) \<Rightarrow> (NotReadyYet, w1)
      | (FindAbort, w1) \<Rightarrow> (Abort, w1)
      | (FindReady settings, w1) \<Rightarrow> (Completed, w1))"

definition stop :: "state \<Rightarrow> state" where
  "stop w = w\<lparr>cancelToken := cancel (cancelToken w)\<rparr>"

text \<open>
  \<^verbatim>\<open>sleep\<close> races a timer against the token's promise. The second argument says
  after how many milliseconds of this sleep \<^verbatim>\<open>stop()\<close> is called, if it is. A token
  already cancelled wins at once; a call before the timer ends the sleep at that
  moment; otherwise the timer ends it (a later call is not part of this sleep).
\<close>

definition sleep :: "int \<Rightarrow> nat option \<Rightarrow> state \<Rightarrow> state" where
  "sleep duration stop_after w =
     (if promise_resolved (cancelToken w) then w\<lparr>trace := trace w @ [Sleep 0]\<rparr>
      else
        (case stop_after of
           None \<Rightarrow> w\<lparr>clock := clock w + duration, trace := trace w @ [Sleep duration]\<rparr>
         | Some t \<Rightarrow>
             if int t < duration
             then (stop w)\<lparr>clock := clock w + int t, trace := trace w @ [Sleep (int t)]\<rparr>
             else w\<lparr>clock := clock w + duration, trace := trace w @ [Sleep duration]\<rparr>))"

text \<open>
  What the surroundings do during one iteration of the loop: whether the store raises
  on the read, whether \<^verbatim>\<open>stop()\<close> is called while the poll is awaited, and whether
  (and when) it is called during the sleep.
\<close>

record tick =
  read_fault :: "string option"
  stop_in_poll :: bool
  stop_in_sleep :: "nat option"

datatype loop_status = NotStarted | Running | Stopped

text \<open>
  \<^verbatim>\<open>runLoop\<close>. The loop may run forever, so it is run against a finite list of
  ticks: \<open>Stopped\<close> means it returned, \<open>Running\<close> that the ticks ran out at the head of
  the loop with the token not cancelled.
\<close>

fun runLoop ::
  "'v externals \<Rightarrow> TaskWorker \<Rightarrow> tick list \<Rightarrow> state \<Rightarrow> loop_status \<times> state" where
  "runLoop ext wk [] w =
     (if isCancelled (cancelToken w) then (Stopped, w) else (Running, w))"
| "runLoop ext wk (t # ts) w =
     (if isCancelled (cancelToken w) then (Stopped, w)
      else
        (case runOnce ext wk (read_fault t) w of
           (runResult, w1) \<Rightarrow>
             let w2 = (if stop_in_poll t then stop w1 else w1) in
             if runResult = Abort then (Stopped, w2)
             else runLoop ext wk ts (sleep WORK_CHECK_FREQUENCY (stop_in_sleep t) w2)))"

text \<open>
  \<^verbatim>\<open>start\<close>. The caller gets the first component as soon as the task is persisted;
  the loop runs in the background, and the second and third components are its status
  and the state at the end of the ticks. Nothing in \<^verbatim>\<open>runLoop\<close> can throw (every
  exception of the poll is caught inside \<^verbatim>\<open>findReadyTask\<close>), so only the first
  handler of \<^verbatim>\<open>then\<close> is ever called.
\<close>

definition start ::
  "'v externals \<Rightarrow> TaskWorker \<Rightarrow> string option \<Rightarrow> 'v \<Rightarrow> tick list \<Rightarrow> state
     \<Rightarrow> (start_error + unit) \<times> loop_status \<times> state" where
  "start ext wk fault settings ticks w =
     (case persistTask ext wk fault settings w of
        (Inl e, w1) \<Rightarrow> (Inl e, NotStarted, w1)
      | (Inr _, w1) \<Rightarrow>
          let w2 = logger Debug
                     (''Task worker starting: '' @ taskId wk @ '', '' @ JSON_stringify ext settings)
                     w1
          in (case runLoop ext wk ticks w2 of
                (Stopped, w3) \<Rightarrow>
                  (Inr (), Stopped, logger Debug (''Task worker finished: '' @ taskId wk) w3)
              | (status, w3) \<Rightarrow> (Inr (), status, w3)))"

section \<open>SimplePermissionHandler\<close>

text \<open>
  Modelled from the spec: the request, identity and result types come from packages
  that are not among the sources. A result is one of \<^verbatim>\<open>ALLOW\<close>, \<^verbatim>\<open>DENY\<close> and
  \<^verbatim>\<open>MAYBE\<close>; of a request only \<^verbatim>\<open>permission.isRead\<close> is read; the identity is
  optional.
\<close>

datatype AuthorizeResult = ALLOW | DENY | MAYBE

record Permission =
  isRead :: bool

record AuthorizeRequest =
  permission :: Permission

record BackstageIdentity =
  identity_id :: string

record AuthorizeResponse =
  result :: AuthorizeResult

definition handle :: "AuthorizeRequest \<Rightarrow> BackstageIdentity option \<Rightarrow> AuthorizeResponse" where
  "handle request identity =
     (case identity of
        Some _ \<Rightarrow> \<lparr>result = ALLOW\<rparr>
      | None \<Rightarrow>
          if isRead (permission request) then \<lparr>result = ALLOW\<rparr>
          else \<lparr>result = DENY\<rparr>)"

section \<open>Statement helpers and sample inputs\<close>

text \<open>
  The message with which reading stored settings back fails, if it does:
  \<^verbatim>\<open>taskSettingsV1Schema.parse(JSON.parse(settingsJson))\<close> throws either in
  \<^verbatim>\<open>JSON.parse\<close> or in the schema.
\<close>

definition parse_error :: "'v externals \<Rightarrow> string \<Rightarrow> string option" where
  "parse_error ext json =
     (case JSON_parse ext json of
        Inl e \<Rightarrow> Some e
      | Inr j \<Rightarrow> (case schema_parse ext j of Inl e \<Rightarrow> Some e | Inr _ \<Rightarrow> None))"

text \<open>
  A small instance of the libraries: settings are just the optional initial delay, the
  schema accepts the delays \<^verbatim>\<open>PT0S\<close> and \<^verbatim>\<open>PT1H\<close>, and the text
  \<^verbatim>\<open>garbage\<close> is not JSON. The sample worker's work function leaves a log line, so
  that a call of it shows in the trace.
\<close>

definition demo_ext :: "string option externals" where
  "demo_ext =
     \<lparr>schema_parse =
        (\<lambda>v. case v of
                None \<Rightarrow> Inr None
              | Some d \<Rightarrow> if d = ''PT0S'' \<or> d = ''PT1H'' then Inr (Some d) else Inl ''invalid duration''),
      JSON_stringify = (\<lambda>v. case v of None \<Rightarrow> ''{}'' | Some d \<Rightarrow> d),
      JSON_parse =
        (\<lambda>s. if s = ''{}'' then Inr None
             else if s = ''garbage'' then Inl ''SyntaxError''
             else Inr (Some s)),
      initialDelayDuration = (\<lambda>v. v),
      Duration_fromISO = (\<lambda>d. if d = ''PT1H'' then 3600000 else 0)\<rparr>"

definition demo_worker :: TaskWorker where
  "demo_worker = \<lparr>taskId = ''t1'', fn = (\<lambda>w. (Inr (), logger Info ''work'' w))\<rparr>"

definition demo_state :: state where
  "demo_state = \<lparr>rows = Map.empty, clock = 1000, cancelToken = create, trace = []\<rparr>"

definition quiet :: tick where
  "quiet = \<lparr>read_fault = None, stop_in_poll = False, stop_in_sleep = None\<rparr>"

definition claimed_row :: DbTasksRow where
  "claimed_row = \<lparr>settings_json = ''{}'', next_run_start_at = 77, current_run_ticket = Some ''ticket-9''\<rparr>"

definition claimed_state :: state where
  "claimed_state = demo_state\<lparr>rows := [''t1'' \<mapsto> claimed_row]\<rparr>"

text \<open>
  States of the table for the task \<^verbatim>\<open>t1\<close>: a record that is due, unclaimed and
  readable; a record whose settings are not JSON, not yet due; the same record, due.
  And a tick in which the store refuses the read.
\<close>

definition ready_row :: DbTasksRow where
  "ready_row = \<lparr>settings_json = ''PT0S'', next_run_start_at = 0, current_run_ticket = None\<rparr>"

definition ready_state :: state where
  "ready_state = demo_state\<lparr>rows := [''t1'' \<mapsto> ready_row]\<rparr>"

definition garbage_row :: DbTasksRow where
  "garbage_row = \<lparr>settings_json = ''garbage'', next_run_start_at = 3600000, current_run_ticket = None\<rparr>"

definition garbage_later :: state where
  "garbage_later = demo_state\<lparr>rows := [''t1'' \<mapsto> garbage_row]\<rparr>"

definition garbage_due :: state where
  "garbage_due = demo_state\<lparr>rows := [''t1'' \<mapsto> garbage_row\<lparr>next_run_start_at := 0\<rparr>]\<rparr>"

definition faulty :: tick where
  "faulty = quiet\<lparr>read_fault := Some ''ECONNREFUSED''\<rparr>"

text \<open>A tick in which \<^verbatim>\<open>stop()\<close> is called 30 ms into the sleep.\<close>

definition stopped_while_asleep :: tick where
  "stopped_while_asleep = quiet\<lparr>stop_in_sleep := Some 30\<rparr>"

section \<open>Lemmas about the worker\<close>

lemmas demo_defs = demo_ext_def demo_worker_def demo_state_def quiet_def create_def
  claimed_row_def claimed_state_def

lemmas worker_defs = start_def persistTask_def runOnce_def findReadyTask_def select_ready_def
  insert_merge_settings_def nowPlus_def logger_def sleep_def stop_def cancel_def
  promise_resolved_def WORK_CHECK_FREQUENCY_def Let_def

lemmas more_defs = ready_row_def ready_state_def garbage_row_def garbage_later_def garbage_due_def faulty_def
  parse_error_def fetch_failed_message_def abort_message_def

lemma findReadyTask_frame:
  "rows (snd (findReadyTask ext wk fault w)) = rows w"
  "clock (snd (findReadyTask ext wk fault w)) = clock w"
  "cancelToken (snd (findReadyTask ext wk fault w)) = cancelToken w"
  by (simp_all add: findReadyTask_def logger_def Let_def
        split: option.splits list.splits sum.splits)

lemma runOnce_frame:
  "rows (snd (runOnce ext wk fault w)) = rows w"
  "clock (snd (runOnce ext wk fault w)) = clock w"
  "cancelToken (snd (runOnce ext wk fault w)) = cancelToken w"
  using findReadyTask_frame [of ext wk fault w]
  by (auto simp: runOnce_def split: prod.splits find_result.splits)

lemma sleep_rows: "rows (sleep d so w) = rows w"
  by (simp add: sleep_def stop_def split: option.splits)

lemma stop_rows: "rows (stop w) = rows w"
  by (simp add: stop_def)

lemma runLoop_rows: "rows (snd (runLoop ext wk ts w)) = rows w"
proof (induction ts arbitrary: w)
  case Nil
  show ?case by simp
next
  case (Cons t ts)
  obtain r w1 where ro: "runOnce ext wk (read_fault t) w = (r, w1)"
    by (cases "runOnce ext wk (read_fault t) w")
  have w1: "rows w1 = rows w"
    using runOnce_frame(1) [of ext wk "read_fault t" w] ro by simp
  show ?case
    using ro w1 Cons.IH by (simp add: Let_def sleep_rows stop_rows)
qed

lemma findReadyTask_trace:
  "\<exists>rest. trace (snd (findReadyTask ext wk fault w)) = trace w @ Select (taskId wk) # rest"
  by (simp add: findReadyTask_def logger_def Let_def
        split: option.splits list.splits sum.splits)

lemma runOnce_trace:
  "\<exists>rest. trace (snd (runOnce ext wk fault w)) = trace w @ Select (taskId wk) # rest"
  using findReadyTask_trace [of ext wk fault w]
  by (auto simp: runOnce_def split: prod.splits find_result.splits)

lemma sleep_trace: "\<exists>e. trace (sleep d so w) = trace w @ [Sleep e]"
  by (simp add: sleep_def stop_def split: option.splits)

lemma stop_trace: "trace (stop w) = trace w"
  by (simp add: stop_def)

lemma runLoop_trace: "\<exists>rest. trace (snd (runLoop ext wk ts w)) = trace w @ rest"
proof (induction ts arbitrary: w)
  case Nil
  show ?case by simp
next
  case (Cons t ts)
  obtain r w1 where ro: "runOnce ext wk (read_fault t) w = (r, w1)"
    by (cases "runOnce ext wk (read_fault t) w")
  obtain r1 where w1: "trace w1 = trace w @ r1"
    using runOnce_trace [of ext wk "read_fault t" w] ro by auto
  define w2 where "w2 = (if stop_in_poll t then stop w1 else w1)"
  have w2: "trace w2 = trace w @ r1"
    using w1 by (simp add: w2_def stop_trace)
  define w3 where "w3 = sleep WORK_CHECK_FREQUENCY (stop_in_sleep t) w2"
  obtain e where w3: "trace w3 = trace w @ r1 @ [Sleep e]"
    using sleep_trace [of WORK_CHECK_FREQUENCY "stop_in_sleep t" w2] w2 by (auto simp: w3_def)
  obtain r3 where "trace (snd (runLoop ext wk ts w3)) = trace w3 @ r3"
    using Cons.IH [of w3] by auto
  then show ?case
    using ro w2 w3 by (auto simp: Let_def w2_def [symmetric] w3_def [symmetric])
qed

lemma runLoop_polls:
  assumes "\<not> isCancelled (cancelToken w)"
  shows "\<exists>rest. trace (snd (runLoop ext wk (t # ts) w)) = trace w @ Select (taskId wk) # rest"
proof -
  obtain r w1 where ro: "runOnce ext wk (read_fault t) w = (r, w1)"
    by (cases "runOnce ext wk (read_fault t) w")
  obtain r1 where w1: "trace w1 = trace w @ Select (taskId wk) # r1"
    using runOnce_trace [of ext wk "read_fault t" w] ro by auto
  define w2 where "w2 = (if stop_in_poll t then stop w1 else w1)"
  have w2: "trace w2 = trace w @ Select (taskId wk) # r1"
    using w1 by (simp add: w2_def stop_trace)
  define w3 where "w3 = sleep WORK_CHECK_FREQUENCY (stop_in_sleep t) w2"
  obtain r3 where "trace (snd (runLoop ext wk ts w3)) = trace w2 @ r3"
    using runLoop_trace [of ext wk ts w3] sleep_trace [of WORK_CHECK_FREQUENCY "stop_in_sleep t" w2]
    by (auto simp: w3_def)
  then show ?thesis
    using assms ro w2 by (auto simp: Let_def w2_def [symmetric] w3_def [symmetric])
qed

lemma persistTask_existing:
  assumes "rows w key = Some r" and "taskId wk = key"
  shows "rows (snd (persistTask ext wk fault settings w)) =
           (if fst (persistTask ext wk fault settings w) = Inr ()
            then (rows w)(key \<mapsto> r\<lparr>settings_json := JSON_stringify ext settings\<rparr>)
            else rows w)"
  using assms
  by (simp add: persistTask_def insert_merge_settings_def Let_def
        split: sum.splits option.splits)

lemma logger_frame:
  "rows (logger l m w) = rows w"
  "clock (logger l m w) = clock w"
  "cancelToken (logger l m w) = cancelToken w"
  "trace (logger l m w) = trace w @ [Log l m]"
  by (simp_all add: logger_def)

lemma runLoop_rowsD: "runLoop ext wk ts w = (st, w') \<Longrightarrow> rows w' = rows w"
  using runLoop_rows [of ext wk ts w] by simp

lemma start_rows:
  "rows (snd (snd (start ext wk fault settings ticks w))) =
     rows (snd (persistTask ext wk fault settings w))"
  by (auto simp: start_def Let_def logger_frame
        split: prod.splits sum.splits loop_status.splits dest!: runLoop_rowsD)

lemma start_fst:
  "fst (start ext wk fault settings ticks w) = fst (persistTask ext wk fault settings w)"
  by (auto simp: start_def Let_def split: prod.splits sum.splits loop_status.splits)

lemma persistTask_new:
  assumes "rows w (taskId wk) = None"
    and "persistTask ext wk fault settings w = (Inr u, w1)"
  shows "rows w1 =
           (rows w)(taskId wk \<mapsto>
              \<lparr>settings_json = JSON_stringify ext settings,
               next_run_start_at =
                 (case initialDelayDuration ext settings of
                    None \<Rightarrow> clock w
                  | Some d \<Rightarrow> if d = [] then clock w else clock w + Duration_fromISO ext d),
               current_run_ticket = None\<rparr>)"
  using assms
  by (auto simp: persistTask_def insert_merge_settings_def nowPlus_def Let_def
        split: sum.splits option.splits)

lemma runOnce_completed:
  assumes "rows w (taskId wk) = Some r"
    and "next_run_start_at r < clock w"
    and "current_run_ticket r = None"
    and "parse_error ext (settings_json r) = None"
  shows "runOnce ext wk None w = (Completed, w\<lparr>trace := trace w @ [Select (taskId wk)]\<rparr>)"
  using assms
  by (auto simp: runOnce_def findReadyTask_def select_ready_def parse_error_def Let_def
        split: sum.splits)

lemma runOnce_unparsable:
  assumes "rows w (taskId wk) = Some r"
    and "next_run_start_at r < clock w"
    and "current_run_ticket r = None"
    and "parse_error ext (settings_json r) = Some e"
  shows "runOnce ext wk None w =
           (Abort, w\<lparr>trace := trace w @ [Select (taskId wk), Log Info (abort_message e)]\<rparr>)"
  using assms
  by (auto simp: runOnce_def findReadyTask_def select_ready_def parse_error_def logger_def Let_def
        split: sum.splits)

lemma runOnce_fault:
  "runOnce ext wk (Some e) w =
     (NotReadyYet,
      w\<lparr>trace := trace w @ [Select (taskId wk), Log Warn (fetch_failed_message e)]\<rparr>)"
  by (simp add: runOnce_def findReadyTask_def logger_def Let_def)

lemma runOnce_polls_once:
  "count_list (trace (snd (runOnce ext wk fault w))) (Select (taskId wk)) =
     Suc (count_list (trace w) (Select (taskId wk)))"
  by (simp add: runOnce_def findReadyTask_def logger_def Let_def
        split: option.splits list.splits sum.splits)

lemma stop_frame:
  "rows (stop w) = rows w"
  "clock (stop w) = clock w"
  "trace (stop w) = trace w"
  "isCancelled (cancelToken (stop w))"
  by (simp_all add: stop_def cancel_def)

lemma runLoop_cancelled:
  "isCancelled (cancelToken w) \<Longrightarrow> runLoop ext wk ts w = (Stopped, w)"
  by (cases ts) simp_all

lemma sleep_cancelled:
  "isCancelled (cancelToken w) \<Longrightarrow> sleep d so w = w\<lparr>trace := trace w @ [Sleep 0]\<rparr>"
  by (simp add: sleep_def promise_resolved_def)

lemma sleep_stopped:
  "\<not> isCancelled (cancelToken w) \<Longrightarrow> int d < dur \<Longrightarrow>
     sleep dur (Some d) w = (stop w)\<lparr>clock := clock w + int d, trace := trace w @ [Sleep (int d)]\<rparr>"
  by (simp add: sleep_def promise_resolved_def)

section \<open>Redefining a task\<close>

text \<open>
  C2. When \<^verbatim>\<open>start(settings)\<close> is called and the table already has a record for the
  task id, the record afterwards differs from the one before at most in
  \<^verbatim>\<open>settings_json\<close> (which holds the new settings when the call succeeds);
  \<^verbatim>\<open>next_run_start_at\<close> and \<^verbatim>\<open>current_run_ticket\<close> are as they were, and so is
  every other record. This holds for the state at the end of any run of the loop that
  the call launches.
\<close>

theorem start_existing_record:
  assumes "rows w (taskId wk) = Some r"
    and "start ext wk fault settings ticks w = (res, status, w')"
  shows "rows w' =
           (rows w)(taskId wk \<mapsto>
              \<lparr>settings_json = (if res = Inr () then JSON_stringify ext settings else settings_json r),
               next_run_start_at = next_run_start_at r,
               current_run_ticket = current_run_ticket r\<rparr>)"
proof -
  have a: "rows w' = rows (snd (persistTask ext wk fault settings w))"
    using start_rows [of ext wk fault settings ticks w] assms(2) by simp
  have b: "res = fst (persistTask ext wk fault settings w)"
    using start_fst [of ext wk fault settings ticks w] assms(2) by simp
  have c: "(rows w)(taskId wk \<mapsto> r) = rows w"
    using assms(1) by (simp add: fun_upd_idem)
  show ?thesis
    using persistTask_existing [OF assms(1) refl, of ext fault settings] a b c
    by (cases r; cases "res = Inr ()") simp_all
qed

theorem start_existing_record_witness:
  "rows claimed_state ''t1'' = Some claimed_row \<and>
   fst (start demo_ext demo_worker None (Some ''PT1H'') [quiet] claimed_state) = Inr () \<and>
   rows (snd (snd (start demo_ext demo_worker None (Some ''PT1H'') [quiet] claimed_state))) =
     [''t1'' \<mapsto> \<lparr>settings_json = ''PT1H'', next_run_start_at = 77,
                    current_run_ticket = Some ''ticket-9''\<rparr>]"
proof -
  let ?S = "start demo_ext demo_worker None (Some ''PT1H'') [quiet] claimed_state"
  have h1: "rows claimed_state (taskId demo_worker) = Some claimed_row"
    by (simp add: demo_defs)
  have h2: "?S = (fst ?S, fst (snd ?S), snd (snd ?S))"
    by simp
  have h3: "fst ?S = Inr ()"
    by (simp add: demo_defs worker_defs)
  show ?thesis
    using start_existing_record [OF h1 h2] h1 h3
    by (simp add: demo_defs)
qed

section \<open>Creating a task\<close>

text \<open>
  C7. When \<^verbatim>\<open>start(settings)\<close> succeeds for a task id that has no record, the record
  it inserts holds the serialized settings, a null \<^verbatim>\<open>current_run_ticket\<close>, and as
  \<^verbatim>\<open>next_run_start_at\<close> the time of the call plus the initial delay when the
  settings have one, and the time of the call when they have none. (The field is an
  ISO-8601 duration, so never the empty string; for the empty string, which JavaScript
  takes for absent, the code stores the time of the call.)
\<close>

theorem start_new_record:
  assumes "rows w (taskId wk) = None"
    and "start ext wk fault settings ticks w = (Inr (), status, w')"
  shows "rows w' =
           (rows w)(taskId wk \<mapsto>
              \<lparr>settings_json = JSON_stringify ext settings,
               next_run_start_at =
                 (case initialDelayDuration ext settings of
                    None \<Rightarrow> clock w
                  | Some d \<Rightarrow> if d = [] then clock w else clock w + Duration_fromISO ext d),
               current_run_ticket = None\<rparr>)"
proof -
  obtain res w1 where p: "persistTask ext wk fault settings w = (res, w1)"
    by (cases "persistTask ext wk fault settings w")
  have "res = Inr ()"
    using start_fst [of ext wk fault settings ticks w] assms(2) p by simp
  moreover have "rows w' = rows w1"
    using start_rows [of ext wk fault settings ticks w] assms(2) p by simp
  ultimately show ?thesis
    using persistTask_new [OF assms(1), of ext fault settings "()" w1] p by simp
qed

theorem start_new_record_witness:
  "rows demo_state ''t1'' = None \<and>
   fst (start demo_ext demo_worker None (Some ''PT1H'') [quiet] demo_state) = Inr () \<and>
   rows (snd (snd (start demo_ext demo_worker None (Some ''PT1H'') [quiet] demo_state))) =
     [''t1'' \<mapsto> \<lparr>settings_json = ''PT1H'', next_run_start_at = 1000 + 3600000,
                    current_run_ticket = None\<rparr>] \<and>
   rows (snd (snd (start demo_ext demo_worker None None [quiet] demo_state))) =
     [''t1'' \<mapsto> \<lparr>settings_json = ''{}'', next_run_start_at = 1000,
                    current_run_ticket = None\<rparr>]"
proof -
  let ?S = "start demo_ext demo_worker None (Some ''PT1H'') [quiet] demo_state"
  let ?T = "start demo_ext demo_worker None None [quiet] demo_state"
  have h1: "rows demo_state (taskId demo_worker) = None"
    by (simp add: demo_defs)
  have h2: "fst ?S = Inr ()" "fst ?T = Inr ()"
    by (simp_all add: demo_defs worker_defs)
  have h3: "?S = (Inr (), fst (snd ?S), snd (snd ?S))" "?T = (Inr (), fst (snd ?T), snd (snd ?T))"
    using h2 by (simp_all add: prod_eq_iff)
  show ?thesis
    using start_new_record [OF h1 h3(1)] start_new_record [OF h1 h3(2)] h1 h2
    by (simp add: demo_defs)
qed

text \<open>
  C6. When the settings fail the schema, \<^verbatim>\<open>start(settings)\<close> fails to its caller
  with the schema's error, the loop is not started, and the state is as it was: no
  record is written, no query is sent.
\<close>

theorem start_invalid_settings:
  assumes "schema_parse ext settings = Inl e"
  shows "start ext wk fault settings ticks w = (Inl (SchemaError e), NotStarted, w)"
  using assms by (simp add: start_def persistTask_def)

theorem start_invalid_settings_witness:
  "schema_parse demo_ext (Some ''P'') = Inl ''invalid duration'' \<and>
   start demo_ext demo_worker None (Some ''P'') [quiet, quiet] demo_state =
     (Inl (SchemaError ''invalid duration''), NotStarted, demo_state)"
proof -
  have h: "schema_parse demo_ext (Some ''P'') = Inl ''invalid duration''"
    by (simp add: demo_defs)
  show ?thesis
    using h start_invalid_settings [OF h] by simp
qed

text \<open>
  C8. When \<^verbatim>\<open>start(s)\<close> has succeeded for a task id that had no record, a second
  \<^verbatim>\<open>start(s)\<close> with the same settings for the same task id (by the same or another
  worker, at any later time, whether or not the store fails this time) leaves the table
  exactly as the first call left it.
\<close>

theorem start_twice_same_record:
  assumes "rows w (taskId wk) = None"
    and "start ext wk fault settings ticks w = (Inr (), status, w1)"
    and "rows v = rows w1"
    and "taskId wk' = taskId wk"
    and "start ext wk' fault' settings ticks' v = (res, status', w2)"
  shows "rows w2 = rows w1"
proof -
  obtain r1 w1' where p: "persistTask ext wk fault settings w = (r1, w1')"
    by (cases "persistTask ext wk fault settings w")
  have r1: "r1 = Inr ()"
    using start_fst [of ext wk fault settings ticks w] assms(2) p by simp
  have "rows w1 = rows w1'"
    using start_rows [of ext wk fault settings ticks w] assms(2) p by simp
  then obtain row where row: "rows w1 = (rows w)(taskId wk \<mapsto> row)"
    and sj: "settings_json row = JSON_stringify ext settings"
    using persistTask_new [OF assms(1), of ext fault settings "()" w1'] p r1 by simp
  have ex: "rows v (taskId wk') = Some row"
    using row assms(3,4) by simp
  have "rows w2 = rows (snd (persistTask ext wk' fault' settings v))"
    using start_rows [of ext wk' fault' settings ticks' v] assms(5) by simp
  also have "\<dots> = (if fst (persistTask ext wk' fault' settings v) = Inr ()
                   then (rows v)(taskId wk' \<mapsto> row\<lparr>settings_json := JSON_stringify ext settings\<rparr>)
                   else rows v)"
    using persistTask_existing [OF ex refl] .
  also have "\<dots> = rows v"
    using ex sj by (auto simp: fun_upd_idem)
  finally show ?thesis
    using assms(3) by simp
qed


theorem start_twice_same_record_witness:
  "rows demo_state ''t1'' = None \<and>
   fst (start demo_ext demo_worker None (Some ''PT0S'') [quiet] demo_state) = Inr () \<and>
   clock (snd (snd (start demo_ext demo_worker None (Some ''PT0S'') [quiet] demo_state))) = 6000 \<and>
   rows (snd (snd (start demo_ext demo_worker None (Some ''PT0S'') [quiet]
           (snd (snd (start demo_ext demo_worker None (Some ''PT0S'') [quiet] demo_state)))))) =
     rows (snd (snd (start demo_ext demo_worker None (Some ''PT0S'') [quiet] demo_state))) \<and>
   rows (snd (snd (start demo_ext demo_worker None (Some ''PT0S'') [quiet] demo_state))) =
     [''t1'' \<mapsto> \<lparr>settings_json = ''PT0S'', next_run_start_at = 1000,
                    current_run_ticket = None\<rparr>]"
proof -
  let ?S = "start demo_ext demo_worker None (Some ''PT0S'') [quiet] demo_state"
  let ?T = "start demo_ext demo_worker None (Some ''PT0S'') [quiet] (snd (snd ?S))"
  have h1: "rows demo_state (taskId demo_worker) = None"
    by (simp add: demo_defs)
  have h2: "fst ?S = Inr ()"
    by (simp add: demo_defs worker_defs)
  have h3: "?S = (Inr (), fst (snd ?S), snd (snd ?S))"
    using h2 by (simp add: prod_eq_iff)
  have h4: "?T = (fst ?T, fst (snd ?T), snd (snd ?T))"
    by simp
  have h5: "clock (snd (snd ?S)) = 6000"
    by (simp add: demo_defs worker_defs)
  have h6: "rows (snd (snd ?S)) =
     [''t1'' \<mapsto> \<lparr>settings_json = ''PT0S'', next_run_start_at = 1000,
                    current_run_ticket = None\<rparr>]"
    by (simp add: demo_defs worker_defs)
  show ?thesis
    using start_twice_same_record [OF h1 h3 refl refl h4] h1 h2 h5 h6
    by (simp add: demo_defs)
qed

section \<open>Results of a poll step\<close>

text \<open>
  C9. Whatever the state, the store's behaviour and the libraries, \<^verbatim>\<open>runOnce\<close>
  returns one of \<^verbatim>\<open>not ready yet\<close>, \<^verbatim>\<open>abort\<close> and \<^verbatim>\<open>completed\<close>; the variant
  \<^verbatim>\<open>failed\<close> of its result type is never returned.
\<close>

theorem runOnce_results:
  "fst (runOnce ext wk fault w) \<in> {NotReadyYet, Abort, Completed} \<and>
   fst (runOnce ext wk fault w) \<noteq> Failed"
  by (simp add: runOnce_def split: prod.splits find_result.splits)

text \<open>
  C1. The claim: when the read finds a due, unclaimed, readable record, the step sets
  \<^verbatim>\<open>current_run_ticket\<close>, calls the work function, then clears the ticket and
  recomputes \<^verbatim>\<open>next_run_start_at\<close>. What \<^verbatim>\<open>runOnce\<close> does on such a record: it
  returns \<^verbatim>\<open>completed\<close> having sent the read and nothing else. The record is as it
  was (still due, never claimed), the work function has not been called (its log line
  is missing), and the next iteration of the loop finds the same record again. The
  same from the beginning: after \<^verbatim>\<open>start\<close> with an initial delay of zero, three
  iterations of the loop read the store three times, and neither the record nor the
  log shows a run.
\<close>

theorem runOnce_ready_only_reads:
  "select_ready ''t1'' ready_state = [ready_row] \<and>
   parse_error demo_ext (settings_json ready_row) = None \<and>
   runOnce demo_ext demo_worker None ready_state =
     (Completed, ready_state\<lparr>trace := [Select ''t1'']\<rparr>) \<and>
   rows (snd (runOnce demo_ext demo_worker None ready_state)) ''t1'' =
     Some \<lparr>settings_json = ''PT0S'', next_run_start_at = 0, current_run_ticket = None\<rparr> \<and>
   fn demo_worker ready_state = (Inr (), ready_state\<lparr>trace := [Log Info ''work'']\<rparr>) \<and>
   Log Info ''work'' \<notin> set (trace (snd (runOnce demo_ext demo_worker None ready_state))) \<and>
   runLoop demo_ext demo_worker [quiet, quiet] ready_state =
     (Running,
      ready_state\<lparr>clock := 11000,
                  trace := [Select ''t1'', Sleep 5000, Select ''t1'', Sleep 5000]\<rparr>) \<and>
   start demo_ext demo_worker None (Some ''PT0S'') [quiet, quiet, quiet] demo_state =
     (Inr (), Running,
      \<lparr>rows = [''t1'' \<mapsto> \<lparr>settings_json = ''PT0S'', next_run_start_at = 1000,
                               current_run_ticket = None\<rparr>],
       clock = 16000,
       cancelToken = \<lparr>isCancelled = False\<rparr>,
       trace = [Upsert ''t1'', Log Debug ''Task worker starting: t1, PT0S'',
                Select ''t1'', Sleep 5000, Select ''t1'', Sleep 5000,
                Select ''t1'', Sleep 5000]\<rparr>)"
  by (simp add: demo_defs more_defs worker_defs)

section \<open>Unreadable settings\<close>

text \<open>
  C3, as stated, fails: it speaks of every state in which the stored settings cannot be
  read back, but the read only returns records that are due and unclaimed. With
  unreadable settings in a record that is not due yet, the step answers
  \<^verbatim>\<open>not ready yet\<close>, and the loop sleeps and polls again.
\<close>

theorem unparsable_not_due_counterexample:
  "rows garbage_later ''t1'' = Some garbage_row \<and>
   parse_error demo_ext (settings_json garbage_row) = Some ''SyntaxError'' \<and>
   fst (runOnce demo_ext demo_worker None garbage_later) = NotReadyYet \<and>
   fst (runOnce demo_ext demo_worker None garbage_later) \<noteq> Abort \<and>
   runLoop demo_ext demo_worker [quiet, quiet] garbage_later =
     (Running,
      garbage_later\<lparr>clock := 11000,
                    trace := [Select ''t1'', Sleep 5000, Select ''t1'', Sleep 5000]\<rparr>)"
  by (simp add: demo_defs more_defs worker_defs)

text \<open>
  C3, amended. When the read succeeds and finds the task's record due
  (\<^verbatim>\<open>next_run_start_at\<close> before now) and unclaimed, and its \<^verbatim>\<open>settings_json\<close>
  fails \<^verbatim>\<open>JSON.parse\<close> or the schema, the poll step answers \<^verbatim>\<open>abort\<close>, having
  logged the error at level info, and the loop returns at once: after the read and
  the log line there is no sleep and no further poll, whatever the ticks that follow.
  The loop has no way to fail, and the caller of \<^verbatim>\<open>start\<close> got its answer before
  the loop began (\<open>start_fst\<close>).
\<close>

theorem unparsable_settings_abort:
  assumes "\<not> isCancelled (cancelToken w)"
    and "read_fault t = None"
    and "rows w (taskId wk) = Some r"
    and "next_run_start_at r < clock w"
    and "current_run_ticket r = None"
    and "parse_error ext (settings_json r) = Some e"
  shows "runOnce ext wk (read_fault t) w =
           (Abort, w\<lparr>trace := trace w @ [Select (taskId wk), Log Info (abort_message e)]\<rparr>) \<and>
         runLoop ext wk (t # ts) w =
           (Stopped,
            (if stop_in_poll t then stop else id)
              (w\<lparr>trace := trace w @ [Select (taskId wk), Log Info (abort_message e)]\<rparr>))"
  using assms(1,2) runOnce_unparsable [OF assms(3-6)]
  by simp

theorem unparsable_settings_abort_witness:
  "\<not> isCancelled (cancelToken garbage_due) \<and>
   parse_error demo_ext (settings_json (garbage_row\<lparr>next_run_start_at := 0\<rparr>)) = Some ''SyntaxError'' \<and>
   runOnce demo_ext demo_worker None garbage_due =
     (Abort, garbage_due\<lparr>trace := [Select ''t1'', Log Info (abort_message ''SyntaxError'')]\<rparr>) \<and>
   runLoop demo_ext demo_worker [quiet, quiet, quiet] garbage_due =
     (Stopped, garbage_due\<lparr>trace := [Select ''t1'', Log Info (abort_message ''SyntaxError'')]\<rparr>)"
proof -
  have h1: "\<not> isCancelled (cancelToken garbage_due)"
    by (simp add: demo_defs more_defs)
  have h2: "read_fault quiet = None"
    by (simp add: demo_defs)
  have h3: "rows garbage_due (taskId demo_worker) = Some (garbage_row\<lparr>next_run_start_at := 0\<rparr>)"
    by (simp add: demo_defs more_defs)
  have h4: "next_run_start_at (garbage_row\<lparr>next_run_start_at := 0\<rparr>) < clock garbage_due"
    by (simp add: demo_defs more_defs)
  have h5: "current_run_ticket (garbage_row\<lparr>next_run_start_at := 0\<rparr>) = None"
    by (simp add: more_defs)
  have h6: "parse_error demo_ext (settings_json (garbage_row\<lparr>next_run_start_at := 0\<rparr>)) = Some ''SyntaxError''"
    by (simp add: demo_defs more_defs)
  have h7: "trace garbage_due = []" "taskId demo_worker = ''t1''" "\<not> stop_in_poll quiet"
    by (simp_all add: demo_defs more_defs)
  show ?thesis
    using unparsable_settings_abort [OF h1 h2 h3 h4 h5 h6, of "[quiet, quiet]"] h1 h2 h6 h7
    by simp
qed

section \<open>A failing read\<close>

text \<open>
  C4. When the store raises on the read, the poll step answers \<^verbatim>\<open>not ready yet\<close>,
  having logged the error as a warning, and the loop does not return: it goes on to
  the sleep and from there to the head of the loop. If \<^verbatim>\<open>stop()\<close> is not called
  in the meantime, the sleep lasts the full \<^verbatim>\<open>WORK_CHECK_FREQUENCY\<close> and the next
  thing the worker does is read the store again.
\<close>

theorem read_fault_not_ready:
  assumes "\<not> isCancelled (cancelToken w)"
    and "read_fault t = Some e"
  shows "runOnce ext wk (read_fault t) w =
           (NotReadyYet,
            w\<lparr>trace := trace w @ [Select (taskId wk), Log Warn (fetch_failed_message e)]\<rparr>) \<and>
         runLoop ext wk (t # ts) w =
           runLoop ext wk ts
             (sleep WORK_CHECK_FREQUENCY (stop_in_sleep t)
                ((if stop_in_poll t then stop else id)
                   (w\<lparr>trace := trace w @ [Select (taskId wk), Log Warn (fetch_failed_message e)]\<rparr>))) \<and>
         (\<not> stop_in_poll t \<and> stop_in_sleep t = None \<longrightarrow>
            fst (runLoop ext wk [t] w) = Running \<and>
            clock (snd (runLoop ext wk [t] w)) = clock w + WORK_CHECK_FREQUENCY \<and>
            (\<exists>rest. trace (snd (runLoop ext wk (t # t' # ts) w)) =
                      trace w @ [Select (taskId wk), Log Warn (fetch_failed_message e),
                                 Sleep WORK_CHECK_FREQUENCY, Select (taskId wk)] @ rest))"
proof -
  let ?w1 = "w\<lparr>trace := trace w @ [Select (taskId wk), Log Warn (fetch_failed_message e)]\<rparr>"
  let ?w3 = "?w1\<lparr>clock := clock w + WORK_CHECK_FREQUENCY,
                   trace := trace ?w1 @ [Sleep WORK_CHECK_FREQUENCY]\<rparr>"
  have ro: "runOnce ext wk (read_fault t) w = (NotReadyYet, ?w1)"
    using assms(2) runOnce_fault [of ext wk e w] by simp
  have step: "runLoop ext wk (t # ts) w =
           runLoop ext wk ts
             (sleep WORK_CHECK_FREQUENCY (stop_in_sleep t) ((if stop_in_poll t then stop else id) ?w1))"
    for ts
    using assms(1) ro by simp
  have quiet: "fst (runLoop ext wk [t] w) = Running \<and>
            clock (snd (runLoop ext wk [t] w)) = clock w + WORK_CHECK_FREQUENCY \<and>
            (\<exists>rest. trace (snd (runLoop ext wk (t # t' # ts) w)) =
                      trace w @ [Select (taskId wk), Log Warn (fetch_failed_message e),
                                 Sleep WORK_CHECK_FREQUENCY, Select (taskId wk)] @ rest)"
    if ns: "\<not> stop_in_poll t" "stop_in_sleep t = None"
  proof -
    have sl: "sleep WORK_CHECK_FREQUENCY (stop_in_sleep t) ((if stop_in_poll t then stop else id) ?w1) = ?w3"
      using ns assms(1) by (simp add: sleep_def promise_resolved_def)
    have nc: "\<not> isCancelled (cancelToken ?w3)"
      using assms(1) by simp
    obtain rest where "trace (snd (runLoop ext wk (t' # ts) ?w3)) = trace ?w3 @ Select (taskId wk) # rest"
      using runLoop_polls [OF nc, of ext wk t' ts] by blast
    then have "trace (snd (runLoop ext wk (t # t' # ts) w)) =
                      trace w @ [Select (taskId wk), Log Warn (fetch_failed_message e),
                                 Sleep WORK_CHECK_FREQUENCY, Select (taskId wk)] @ rest"
      using step [of "t' # ts"] sl by simp
    moreover have "runLoop ext wk [t] w = (Running, ?w3)"
      using step [of "[]"] sl nc by simp
    ultimately show ?thesis
      by simp
  qed
  show ?thesis
    using ro step [of ts] quiet by blast
qed

theorem read_fault_not_ready_witness:
  "\<not> isCancelled (cancelToken ready_state) \<and>
   read_fault faulty = Some ''ECONNREFUSED'' \<and>
   \<not> stop_in_poll faulty \<and> stop_in_sleep faulty = None \<and>
   runOnce demo_ext demo_worker (read_fault faulty) ready_state =
     (NotReadyYet,
      ready_state\<lparr>trace := [Select ''t1'', Log Warn (fetch_failed_message ''ECONNREFUSED'')]\<rparr>) \<and>
   fst (runLoop demo_ext demo_worker [faulty] ready_state) = Running \<and>
   clock (snd (runLoop demo_ext demo_worker [faulty] ready_state)) = 6000 \<and>
   runLoop demo_ext demo_worker [faulty, quiet] ready_state =
     (Running,
      ready_state\<lparr>clock := 11000,
                  trace := [Select ''t1'', Log Warn (fetch_failed_message ''ECONNREFUSED''),
                            Sleep 5000, Select ''t1'', Sleep 5000]\<rparr>)"
proof -
  have h1: "\<not> isCancelled (cancelToken ready_state)"
    by (simp add: demo_defs more_defs)
  have h2: "read_fault faulty = Some ''ECONNREFUSED''"
    by (simp add: faulty_def)
  have h3: "\<not> stop_in_poll faulty \<and> stop_in_sleep faulty = None"
    by (simp add: faulty_def demo_defs)
  have h4: "runLoop demo_ext demo_worker [faulty, quiet] ready_state =
     (Running,
      ready_state\<lparr>clock := 11000,
                  trace := [Select ''t1'', Log Warn (fetch_failed_message ''ECONNREFUSED''),
                            Sleep 5000, Select ''t1'', Sleep 5000]\<rparr>)"
    by (simp add: faulty_def demo_defs more_defs worker_defs)
  have h5: "trace ready_state = []" "taskId demo_worker = ''t1''" "clock ready_state = 1000"
    by (simp_all add: demo_defs more_defs)
  note T = read_fault_not_ready [OF h1 h2, of demo_ext demo_worker "[]" quiet]
  from T have a: "runOnce demo_ext demo_worker (read_fault faulty) ready_state =
     (NotReadyYet,
      ready_state\<lparr>trace := trace ready_state @
         [Select (taskId demo_worker), Log Warn (fetch_failed_message ''ECONNREFUSED'')]\<rparr>)"
    by blast
  from T h3 have b: "fst (runLoop demo_ext demo_worker [faulty] ready_state) = Running \<and>
     clock (snd (runLoop demo_ext demo_worker [faulty] ready_state)) =
       clock ready_state + WORK_CHECK_FREQUENCY"
    by blast
  show ?thesis
    using a b h1 h2 h3 h4 h5
    by (simp add: WORK_CHECK_FREQUENCY_def del: runLoop.simps)
qed

section \<open>Stopping\<close>

text \<open>
  C5. \<^verbatim>\<open>stop()\<close> is idempotent. Once it has been called, the token is cancelled, the
  loop returns at its next check without reading the store, and a sleep begun
  afterwards ends at once. A sleep in progress when it is called ends at that moment
  instead of lasting \<^verbatim>\<open>WORK_CHECK_FREQUENCY\<close>. So when \<^verbatim>\<open>stop()\<close> is called during
  an iteration (while the poll is awaited, or during the sleep before the timer
  fires), the loop returns within that iteration: the ticks that follow are never
  looked at, the store has been read exactly once since the iteration began (the poll
  already under way), and less than \<^verbatim>\<open>WORK_CHECK_FREQUENCY\<close> has passed. Time is
  counted in milliseconds of the model's clock.
\<close>

theorem stop_ends_loop:
  "stop (stop w) = stop w \<and>
   isCancelled (cancelToken (stop w)) \<and>
   runLoop ext wk ts (stop w) = (Stopped, stop w) \<and>
   sleep WORK_CHECK_FREQUENCY so (stop w) = (stop w)\<lparr>trace := trace w @ [Sleep 0]\<rparr> \<and>
   (\<not> isCancelled (cancelToken w) \<and> int d < WORK_CHECK_FREQUENCY \<longrightarrow>
      sleep WORK_CHECK_FREQUENCY (Some d) w =
        (stop w)\<lparr>clock := clock w + int d, trace := trace w @ [Sleep (int d)]\<rparr>) \<and>
   (\<not> isCancelled (cancelToken w) \<and>
    (stop_in_poll t \<or> (\<exists>n. stop_in_sleep t = Some n \<and> int n < WORK_CHECK_FREQUENCY)) \<longrightarrow>
      fst (runLoop ext wk (t # ts) w) = Stopped \<and>
      runLoop ext wk (t # ts) w = runLoop ext wk [t] w \<and>
      count_list (trace (snd (runLoop ext wk (t # ts) w))) (Select (taskId wk)) =
        Suc (count_list (trace w) (Select (taskId wk))) \<and>
      clock (snd (runLoop ext wk (t # ts) w)) < clock w + WORK_CHECK_FREQUENCY)"
proof -
  have idem: "stop (stop w) = stop w"
    by (simp add: stop_def cancel_def)
  have flag: "isCancelled (cancelToken (stop w))"
    by (rule stop_frame)
  have exit: "runLoop ext wk ts (stop w) = (Stopped, stop w)"
    using flag by (rule runLoop_cancelled)
  have late: "sleep WORK_CHECK_FREQUENCY so (stop w) = (stop w)\<lparr>trace := trace w @ [Sleep 0]\<rparr>"
    using sleep_cancelled [OF flag] by (simp add: stop_frame)
  have cut: "sleep WORK_CHECK_FREQUENCY (Some d) w =
        (stop w)\<lparr>clock := clock w + int d, trace := trace w @ [Sleep (int d)]\<rparr>"
    if "\<not> isCancelled (cancelToken w)" "int d < WORK_CHECK_FREQUENCY"
    using that by (rule sleep_stopped)
  have loop: "fst (runLoop ext wk (t # ts) w) = Stopped \<and>
      runLoop ext wk (t # ts) w = runLoop ext wk [t] w \<and>
      count_list (trace (snd (runLoop ext wk (t # ts) w))) (Select (taskId wk)) =
        Suc (count_list (trace w) (Select (taskId wk))) \<and>
      clock (snd (runLoop ext wk (t # ts) w)) < clock w + WORK_CHECK_FREQUENCY"
    if nc: "\<not> isCancelled (cancelToken w)"
      and st: "stop_in_poll t \<or> (\<exists>n. stop_in_sleep t = Some n \<and> int n < WORK_CHECK_FREQUENCY)"
  proof -
    obtain r w1 where ro: "runOnce ext wk (read_fault t) w = (r, w1)"
      by (cases "runOnce ext wk (read_fault t) w")
    have w1: "clock w1 = clock w" "cancelToken w1 = cancelToken w"
      "count_list (trace w1) (Select (taskId wk)) = Suc (count_list (trace w) (Select (taskId wk)))"
      using runOnce_frame(2,3) [of ext wk "read_fault t" w]
        runOnce_polls_once [of ext wk "read_fault t" w] ro by simp_all
    define w2 where "w2 = (if stop_in_poll t then stop w1 else w1)"
    have w2: "clock w2 = clock w"
      "count_list (trace w2) (Select (taskId wk)) = Suc (count_list (trace w) (Select (taskId wk)))"
      using w1 by (simp_all add: w2_def stop_frame)
    define w3 where "w3 = sleep WORK_CHECK_FREQUENCY (stop_in_sleep t) w2"
    have pos: "0 < WORK_CHECK_FREQUENCY"
      by (simp add: WORK_CHECK_FREQUENCY_def)
    have w3: "isCancelled (cancelToken w3) \<and> clock w3 < clock w + WORK_CHECK_FREQUENCY \<and>
      count_list (trace w3) (Select (taskId wk)) = Suc (count_list (trace w) (Select (taskId wk)))"
    proof (cases "stop_in_poll t")
      case True
      then have c: "isCancelled (cancelToken w2)"
        by (simp add: w2_def stop_frame)
      show ?thesis
        using sleep_cancelled [OF c, of WORK_CHECK_FREQUENCY "stop_in_sleep t"] c w2 pos
        by (simp add: w3_def)
    next
      case False
      then obtain n where n: "stop_in_sleep t = Some n" "int n < WORK_CHECK_FREQUENCY"
        using st by blast
      have c: "\<not> isCancelled (cancelToken w2)"
        using False nc w1 by (simp add: w2_def)
      show ?thesis
        using sleep_stopped [OF c n(2)] n w2
        by (simp add: w3_def stop_frame)
    qed
    have step: "runLoop ext wk (t # us) w = (if r = Abort then (Stopped, w2) else (Stopped, w3))" for us
      using nc ro w3 runLoop_cancelled [of w3 ext wk us]
      by (simp add: Let_def w2_def [symmetric] w3_def [symmetric])
    show ?thesis
      using step [of ts] step [of "[]"] w2 w3 pos by simp
  qed
  show ?thesis
    using idem flag exit late cut loop by blast
qed

theorem stop_ends_loop_witness:
  "\<not> isCancelled (cancelToken ready_state) \<and>
   stop_in_sleep stopped_while_asleep = Some 30 \<and> int 30 < WORK_CHECK_FREQUENCY \<and>
   stop (stop ready_state) = stop ready_state \<and>
   runLoop demo_ext demo_worker [quiet, quiet] (stop ready_state) = (Stopped, stop ready_state) \<and>
   fst (runLoop demo_ext demo_worker [stopped_while_asleep, quiet, quiet] ready_state) = Stopped \<and>
   runLoop demo_ext demo_worker [stopped_while_asleep, quiet, quiet] ready_state =
     (Stopped,
      ready_state\<lparr>clock := 1030, cancelToken := \<lparr>isCancelled = True\<rparr>,
                  trace := [Select ''t1'', Sleep 30]\<rparr>) \<and>
   count_list
     (trace (snd (runLoop demo_ext demo_worker [stopped_while_asleep, quiet, quiet] ready_state)))
     (Select ''t1'') = 1"
proof -
  have h1: "\<not> isCancelled (cancelToken ready_state)"
    by (simp add: demo_defs more_defs)
  have h2: "stop_in_sleep stopped_while_asleep = Some 30 \<and> int 30 < WORK_CHECK_FREQUENCY"
    by (simp add: stopped_while_asleep_def WORK_CHECK_FREQUENCY_def)
  have h3: "runLoop demo_ext demo_worker [stopped_while_asleep, quiet, quiet] ready_state =
     (Stopped,
      ready_state\<lparr>clock := 1030, cancelToken := \<lparr>isCancelled = True\<rparr>,
                  trace := [Select ''t1'', Sleep 30]\<rparr>)"
    by (simp add: stopped_while_asleep_def demo_defs more_defs worker_defs)
  have h4: "trace ready_state = []" "taskId demo_worker = ''t1''"
    by (simp_all add: demo_defs more_defs)
  note T = stop_ends_loop [of ready_state demo_ext demo_worker "[quiet, quiet]" None 30
      stopped_while_asleep]
  from T have a: "stop (stop ready_state) = stop ready_state"
    by blast
  from T have b: "runLoop demo_ext demo_worker [quiet, quiet] (stop ready_state) =
      (Stopped, stop ready_state)"
    by blast
  from T h1 h2 have c:
    "fst (runLoop demo_ext demo_worker (stopped_while_asleep # [quiet, quiet]) ready_state) = Stopped \<and>
     count_list
       (trace (snd (runLoop demo_ext demo_worker (stopped_while_asleep # [quiet, quiet]) ready_state)))
       (Select (taskId demo_worker)) =
     Suc (count_list (trace ready_state) (Select (taskId demo_worker)))"
    by blast
  show ?thesis
    using a b c h1 h2 h3 h4 by (simp del: runLoop.simps)
qed

section \<open>The simple permission handler\<close>

text \<open>
  C10. \<^verbatim>\<open>handle\<close> answers \<^verbatim>\<open>ALLOW\<close> whenever an identity is given; without an
  identity it answers \<^verbatim>\<open>ALLOW\<close> exactly when the permission is a read and
  \<^verbatim>\<open>DENY\<close> exactly when it is not; it never answers \<^verbatim>\<open>MAYBE\<close>.
\<close>

theorem handle_result:
  "result (handle request (Some i)) = ALLOW \<and>
   (result (handle request None) = ALLOW) = isRead (permission request) \<and>
   (result (handle request None) = DENY) = (\<not> isRead (permission request)) \<and>
   result (handle request identity) \<noteq> MAYBE"
  by (simp add: handle_def split: option.splits)

end
